theory Spec2Isabelle
  imports Complex_Main "HOL-Library.Sublist"
begin

section \<open>Shallow embedding of \<^verbatim>\<open>src/bin/pi_garage_alert.py\<close>\<close>

text \<open>
  The program polls the GPIO pin of every configured garage door once a second, keeps
  three dictionaries keyed by the door's name (\<^verbatim>\<open>door_states\<close>,
  \<^verbatim>\<open>time_of_last_state_change\<close>, \<^verbatim>\<open>alert_states\<close>) and sends tiered alerts.

  Conventions of the embedding:
  \<^item> Python strings are \<open>string\<close>; the program is Python 2, so a string is a byte list.
  \<^item> \<^verbatim>\<open>time.time()\<close> and the thresholds of the configuration are numbers; they are
    modelled as \<open>real\<close> (no floating-point rounding is modelled).
  \<^item> A missing dictionary key and a list index out of range raise; the model returns
    \<open>Inl KeyError\<close> or \<open>Inl IndexError\<close>. Both end the main loop of the source.
  \<^item> Everything read from the environment during one pass over a door (the GPIO pin, the
    clock) is an explicit argument.
  \<^item> The calls into the notification libraries are recorded as values. In
    \<^verbatim>\<open>send_alerts\<close> how each call ends (it returns or raises) is an argument; the body of
    the main loop records its calls of \<^verbatim>\<open>send_alerts\<close> and describes the passes on which
    they return.
\<close>

subsection \<open>Python helpers\<close>

datatype error = KeyError | IndexError

text \<open>\<^verbatim>\<open>d[k]\<close> on a dictionary.\<close>

definition lookup :: "('k \<rightharpoonup> 'v) \<Rightarrow> 'k \<Rightarrow> error + 'v" where
  "lookup d k = (case d k of None \<Rightarrow> Inl KeyError | Some v \<Rightarrow> Inr v)"

text \<open>\<^verbatim>\<open>xs[i]\<close> on a list, for an index that is not negative.\<close>

definition item :: "'a list \<Rightarrow> nat \<Rightarrow> error + 'a" where
  "item xs i = (if i < length xs then Inr (xs ! i) else Inl IndexError)"

text \<open>
  \<^verbatim>\<open>s[:k]\<close> for any integer \<open>k\<close>: a negative \<open>k\<close> counts from the end, and the
  stop position is clamped to the string.
\<close>

definition slice_to :: "'a list \<Rightarrow> int \<Rightarrow> 'a list" where
  "slice_to s k = (if k < 0 then take (nat (int (length s) + k)) s else take (nat k) s)"

text \<open>
  \<^verbatim>\<open>round(x)\<close> of Python 2, a builtin: the nearest whole number, a tie going away from
  zero. The result is again a float, so the model's result is a \<open>real\<close>; that it holds a
  whole number is a property to prove, not a matter of its type. (The interpreter line of
  the file is \<^verbatim>\<open>#!/usr/bin/python\<close>, and lines 66 to 69 provide for Python 2. The
  \<^verbatim>\<open>round\<close> of Python 3 returns an \<^verbatim>\<open>int\<close> and resolves a tie to the even neighbour;
  it is a nearest whole number as well.)
\<close>

definition py_round :: "real \<Rightarrow> real" where
  "py_round x =
     (if 0 \<le> x then real_of_int \<lfloor>x + 1 / 2\<rfloor> else real_of_int \<lceil>x - 1 / 2\<rceil>)"

subsection \<open>Sensor support\<close>

text \<open>
  \<^verbatim>\<open>get_garage_door_state(pin)\<close>; the argument of the model is the truth value of
  \<^verbatim>\<open>GPIO.input(pin)\<close>.
\<close>

definition get_garage_door_state :: "bool \<Rightarrow> string" where
  "get_garage_door_state gpio_input = (if gpio_input then ''open'' else ''closed'')"

subsection \<open>Logging and alerts: \<^verbatim>\<open>create_event\<close>\<close>

text \<open>
  \<^verbatim>\<open>time.localtime()\<close> returns a \<^verbatim>\<open>struct_time\<close>; the fields the program's format
  string reads are kept.
\<close>

record struct_time =
  tm_year :: nat
  tm_mon :: nat
  tm_mday :: nat
  tm_hour :: nat
  tm_min :: nat
  tm_sec :: nat

text \<open>
  \<^verbatim>\<open>time.strftime\<close> belongs to the Python standard library, not to the repository. It
  is modelled, after the library's documentation, for the directives that the format
  string of \<^verbatim>\<open>create_event\<close> uses: \<^verbatim>\<open>%Y\<close> is the year in decimal, \<^verbatim>\<open>%m\<close>,
  \<^verbatim>\<open>%d\<close>, \<^verbatim>\<open>%H\<close>, \<^verbatim>\<open>%M\<close> and \<^verbatim>\<open>%S\<close> are decimal numbers padded with zeros to
  two digits; any other character of the format is copied.
\<close>

definition digit_char :: "nat \<Rightarrow> char" where
  "digit_char n = ''0123456789'' ! (n mod 10)"

fun dec :: "nat \<Rightarrow> string" where
  "dec n = (if n < 10 then [digit_char n] else dec (n div 10) @ [digit_char n])"

declare dec.simps [simp del]

definition zero_pad :: "nat \<Rightarrow> string \<Rightarrow> string" where
  "zero_pad w s = replicate (w - length s) (CHR ''0'') @ s"

definition directive :: "char \<Rightarrow> struct_time \<Rightarrow> string" where
  "directive c lt =
     (if c = CHR ''Y'' then dec (tm_year lt)
      else if c = CHR ''m'' then zero_pad 2 (dec (tm_mon lt))
      else if c = CHR ''d'' then zero_pad 2 (dec (tm_mday lt))
      else if c = CHR ''H'' then zero_pad 2 (dec (tm_hour lt))
      else if c = CHR ''M'' then zero_pad 2 (dec (tm_min lt))
      else if c = CHR ''S'' then zero_pad 2 (dec (tm_sec lt))
      else [CHR ''%'', c])"

fun strftime :: "string \<Rightarrow> struct_time \<Rightarrow> string" where
  "strftime [] lt = []"
| "strftime [c] lt = [c]"
| "strftime (c # d # fmt) lt =
     (if c = CHR ''%'' then directive d lt @ strftime fmt lt
      else c # strftime (d # fmt) lt)"

text \<open>
  The dictionary that \<^verbatim>\<open>create_event\<close> builds has string keys and values that are
  strings or a number; the number both callers pass is the float that \<^verbatim>\<open>round\<close> returns.
  \<^verbatim>\<open>demjson.encode\<close> belongs to a library; it is the argument \<open>encode\<close> of the model.

  \<^verbatim>\<open>
  def create_event(door, state, time_in_state):
      stamp = time.strftime("%Y-%m-%dT%H:%M:%S", time.localtime())
      event = { 'timestamp': stamp, 'door': door, 'state': state, 'time': time_in_state, }
      return str(demjson.encode(event))
  \<close>
\<close>

datatype json = JStr string | JNum real

type_synonym event = "(string \<times> json) list"

definition create_event ::
  "(event \<Rightarrow> string) \<Rightarrow> struct_time \<Rightarrow> string \<Rightarrow> string \<Rightarrow> real \<Rightarrow> string" where
  "create_event encode localtime door state time_in_state =
     (let stamp = strftime ''%Y-%m-%dT%H:%M:%S'' localtime;
          event = [(''timestamp'', JStr stamp),
                   (''door'', JStr door),
                   (''state'', JStr state),
                   (''time'', JNum time_in_state)]
      in encode event)"

subsection \<open>Logging and alerts: \<^verbatim>\<open>send_alerts\<close>\<close>








subsection \<open>Main functionality: configuration, dictionaries and readings\<close>

text \<open>An entry of \<^verbatim>\<open>door['alerts']\<close> and an entry of \<^verbatim>\<open>cfg.GARAGE_DOORS\<close>.\<close>

record alert =
  alert_time :: real
  alert_state :: string
  alert_recipients :: "string list"

record door =
  door_name :: string
  door_pin :: nat
  door_alerts :: "alert list"

text \<open>
  The three dictionaries of \<^verbatim>\<open>main\<close>. \<^verbatim>\<open>alert_states[name]\<close> starts at 0 and is
  only ever incremented or set to 0, so it is a natural number.
\<close>

record tracker =
  door_states :: "string \<rightharpoonup> string"
  time_of_last_state_change :: "string \<rightharpoonup> real"
  alert_states :: "string \<rightharpoonup> nat"

text \<open>
  What one pass over a door reads from its environment: the GPIO pin (line 619), the
  clock at line 620, the clock at line 625 (read only when the state has changed), and
  the local time inside \<^verbatim>\<open>create_event\<close> at lines 632 and 647.
\<close>

record reads =
  pin_input :: bool
  clock_read :: real
  clock_change :: real
  local_closing :: struct_time
  local_alert :: struct_time

text \<open>
  One call \<^verbatim>\<open>send_alerts(self.logger, alert_senders, recipients, name, event)\<close>: its
  arguments, and the value \<^verbatim>\<open>alert_states[name]\<close> has at the moment of the call.
\<close>

record sent =
  sent_recipients :: "string list"
  sent_subject :: string
  sent_msg :: string
  sent_index :: nat

subsection \<open>Misc support: \<^verbatim>\<open>truncate\<close>\<close>

text \<open>
  \<^verbatim>\<open>
  def truncate(input_str, length):
      if len(input_str) < (length - 3):
          return input_str
      return input_str[:(length - 3)] + '...'
  \<close>
\<close>

definition truncate :: "string \<Rightarrow> int \<Rightarrow> string" where
  "truncate input_str len =
     (if int (length input_str) < len - 3 then input_str
      else slice_to input_str (len - 3) @ ''...'')"

subsection \<open>Main functionality: the body of the loop\<close>

text \<open>
  Lines 623 to 638, ``Check if the door has changed state'': the result is the new
  dictionaries, the calls of \<^verbatim>\<open>send_alerts\<close> made, and the value of the local
  variable \<^verbatim>\<open>time_in_state\<close> afterwards.
\<close>

definition check_state_change ::
  "(event \<Rightarrow> string) \<Rightarrow> door \<Rightarrow> string \<Rightarrow> reads \<Rightarrow> real \<Rightarrow> tracker
     \<Rightarrow> error + (tracker \<times> sent list \<times> real)" where
  "check_state_change encode door state rd time_in_state s =
     (let name = door_name door in
      case lookup (door_states s) name of
        Inl e \<Rightarrow> Inl e
      | Inr old \<Rightarrow>
          if old \<noteq> state then
            (let s1 = s\<lparr>door_states := (door_states s)(name \<mapsto> state),
                       time_of_last_state_change :=
                         (time_of_last_state_change s)(name \<mapsto> clock_change rd)\<rparr>
             in case lookup (alert_states s1) name of
                  Inl e \<Rightarrow> Inl e
                | Inr a \<Rightarrow>
                    if a > 0 then
                      (case item (door_alerts door) (a - 1) of
                         Inl e \<Rightarrow> Inl e
                       | Inr last_alert \<Rightarrow>
                           Inr (s1\<lparr>alert_states := (alert_states s1)(name \<mapsto> 0)\<rparr>,
                                [\<lparr>sent_recipients = alert_recipients last_alert,
                                  sent_subject = name,
                                  sent_msg = create_event encode (local_closing rd) name state
                                               (py_round time_in_state),
                                  sent_index = a\<rparr>],
                                0))
                    else Inr (s1, [], 0))
          else Inr (s, [], time_in_state))"

text \<open>Lines 641 to 650, ``See if there are more alerts''.\<close>

definition check_alerts ::
  "(event \<Rightarrow> string) \<Rightarrow> door \<Rightarrow> string \<Rightarrow> reads \<Rightarrow> real \<Rightarrow> tracker
     \<Rightarrow> error + (tracker \<times> sent list)" where
  "check_alerts encode door state rd time_in_state s =
     (let name = door_name door in
      case lookup (alert_states s) name of
        Inl e \<Rightarrow> Inl e
      | Inr a \<Rightarrow>
          if length (door_alerts door) > a then
            (let alert = door_alerts door ! a in
             if time_in_state > alert_time alert \<and> state = alert_state alert then
               Inr (s\<lparr>alert_states := (alert_states s)(name \<mapsto> a + 1)\<rparr>,
                    [\<lparr>sent_recipients = alert_recipients alert,
                      sent_subject = name,
                      sent_msg = create_event encode (local_alert rd) name state
                                   (py_round time_in_state),
                      sent_index = a\<rparr>])
             else Inr (s, []))
          else Inr (s, []))"

text \<open>Lines 618 to 650: the body of \<^verbatim>\<open>for door in cfg.GARAGE_DOORS\<close>.\<close>

definition tick ::
  "(event \<Rightarrow> string) \<Rightarrow> door \<Rightarrow> reads \<Rightarrow> tracker \<Rightarrow> error + (tracker \<times> sent list)" where
  "tick encode door rd s =
     (let name = door_name door;
          state = get_garage_door_state (pin_input rd)
      in case lookup (time_of_last_state_change s) name of
           Inl e \<Rightarrow> Inl e
         | Inr last_change \<Rightarrow>
             (let time_in_state = clock_read rd - last_change
              in case check_state_change encode door state rd time_in_state s of
                   Inl e \<Rightarrow> Inl e
                 | Inr (s1, out1, time_in_state1) \<Rightarrow>
                     (case check_alerts encode door state rd time_in_state1 s1 of
                        Inl e \<Rightarrow> Inl e
                      | Inr (s2, out2) \<Rightarrow> Inr (s2, out1 @ out2))))"

text \<open>
  The \<^verbatim>\<open>while True\<close> loop, followed for one door over the passes whose readings are
  listed: the result lists, for every pass, the dictionaries and the
  \<^verbatim>\<open>send_alerts\<close> calls after it. An error ends the loop.
\<close>

fun run ::
  "(event \<Rightarrow> string) \<Rightarrow> door \<Rightarrow> reads list \<Rightarrow> tracker
     \<Rightarrow> error + (tracker \<times> sent list) list" where
  "run encode door [] s = Inr []"
| "run encode door (rd # rds) s =
     (case tick encode door rd s of
        Inl e \<Rightarrow> Inl e
      | Inr (s', out) \<Rightarrow>
          (case run encode door rds s' of
             Inl e \<Rightarrow> Inl e
           | Inr tr \<Rightarrow> Inr ((s', out) # tr)))"


text \<open>
  Lines 586 to 611: the three dictionaries start empty, and ``Read initial states''
  enters every door with the state its pin shows, the clock, and the alert index 0.
\<close>

definition no_doors :: tracker where
  "no_doors =
     \<lparr>door_states = Map.empty, time_of_last_state_change = Map.empty,
      alert_states = Map.empty\<rparr>"

definition read_initial_state :: "door \<Rightarrow> bool \<Rightarrow> real \<Rightarrow> tracker \<Rightarrow> tracker" where
  "read_initial_state door gpio_input now s =
     (let name = door_name door; state = get_garage_door_state gpio_input
      in s\<lparr>door_states := (door_states s)(name \<mapsto> state),
           time_of_last_state_change := (time_of_last_state_change s)(name \<mapsto> now),
           alert_states := (alert_states s)(name \<mapsto> 0)\<rparr>)"

section \<open>Notions used in the statements\<close>

text \<open>
  The state a pass senses (line 619), the alert index of a door (the escalation cursor
  of the specification), and whether the sensed state differs from the stored one
  (the test of line 623).
\<close>

definition sensed :: "reads \<Rightarrow> string" where
  "sensed rd = get_garage_door_state (pin_input rd)"

definition cursor :: "tracker \<Rightarrow> door \<Rightarrow> nat option" where
  "cursor s d = alert_states s (door_name d)"

definition changed :: "door \<Rightarrow> reads \<Rightarrow> tracker \<Rightarrow> bool" where
  "changed d rd s \<longleftrightarrow> door_states s (door_name d) \<noteq> Some (sensed rd)"

text \<open>
  The door is in all three dictionaries with an alert index within its rule list; the
  initial read establishes this and every pass keeps it.
\<close>

definition tracked :: "tracker \<Rightarrow> door \<Rightarrow> bool" where
  "tracked s d =
     (case (door_states s (door_name d), time_of_last_state_change s (door_name d),
            alert_states s (door_name d)) of
        (Some old, Some t0, Some k) \<Rightarrow> k \<le> length (door_alerts d)
      | _ \<Rightarrow> False)"

text \<open>
  The test of lines 641 and 646 for the rule with index \<open>k\<close>: the rule exists, the time
  in state is greater than its threshold, and the sensed state is its trigger state.
\<close>

definition due :: "door \<Rightarrow> string \<Rightarrow> real \<Rightarrow> nat \<Rightarrow> bool" where
  "due d st t k \<longleftrightarrow>
     k < length (door_alerts d) \<and> alert_time (door_alerts d ! k) < t \<and>
     st = alert_state (door_alerts d ! k)"

text \<open>
  The call of line 633 (the closing event, to the recipients of the rule before index
  \<open>k\<close>) and the call of line 648 (the alert of the rule with index \<open>k\<close>), for a time in
  state \<open>t\<close>; both are made while \<^verbatim>\<open>alert_states[name]\<close> is still \<open>k\<close>, before the
  assignments of lines 635 and 650.
\<close>

definition closing_call :: "(event \<Rightarrow> string) \<Rightarrow> door \<Rightarrow> reads \<Rightarrow> real \<Rightarrow> nat \<Rightarrow> sent" where
  "closing_call encode d rd t k =
     \<lparr>sent_recipients = alert_recipients (door_alerts d ! (k - 1)),
      sent_subject = door_name d,
      sent_msg = create_event encode (local_closing rd) (door_name d) (sensed rd) (py_round t),
      sent_index = k\<rparr>"

definition alert_call :: "(event \<Rightarrow> string) \<Rightarrow> door \<Rightarrow> reads \<Rightarrow> real \<Rightarrow> nat \<Rightarrow> sent" where
  "alert_call encode d rd t k =
     \<lparr>sent_recipients = alert_recipients (door_alerts d ! k),
      sent_subject = door_name d,
      sent_msg = create_event encode (local_alert rd) (door_name d) (sensed rd) (py_round t),
      sent_index = k\<rparr>"

text \<open>The assignments of lines 635 and 650, and of lines 624 and 625.\<close>

definition set_cursor :: "tracker \<Rightarrow> door \<Rightarrow> nat \<Rightarrow> tracker" where
  "set_cursor s d k = s\<lparr>alert_states := (alert_states s)(door_name d \<mapsto> k)\<rparr>"

definition note_change :: "tracker \<Rightarrow> door \<Rightarrow> reads \<Rightarrow> tracker" where
  "note_change s d rd =
     s\<lparr>door_states := (door_states s)(door_name d \<mapsto> sensed rd),
       time_of_last_state_change :=
         (time_of_last_state_change s)(door_name d \<mapsto> clock_change rd)\<rparr>"

text \<open>
  The dictionaries before pass \<open>j\<close> of a run that started from \<open>s0\<close>, and the list of
  passes of a run that did not raise.
\<close>

definition before :: "tracker \<Rightarrow> (tracker \<times> sent list) list \<Rightarrow> nat \<Rightarrow> tracker" where
  "before s0 tr j = (s0 # map fst tr) ! j"

definition the_trace ::
  "error + (tracker \<times> sent list) list \<Rightarrow> (tracker \<times> sent list) list" where
  "the_trace r = (case r of Inl e \<Rightarrow> [] | Inr tr \<Rightarrow> tr)"



text \<open>
  The shape \<^verbatim>\<open>YYYY-MM-DDTHH:MM:SS\<close> of the specification: a digit where the pattern has
  one of the letters Y, M, D, H, S, and the pattern's own character elsewhere. The ranges
  are those of a \<^verbatim>\<open>struct_time\<close> with a year of four digits.
\<close>

definition is_digit :: "char \<Rightarrow> bool" where
  "is_digit c \<longleftrightarrow> c \<in> set ''0123456789''"

definition fits :: "char \<Rightarrow> char \<Rightarrow> bool" where
  "fits p c = (if p \<in> set ''YMDHS'' then is_digit c else c = p)"

definition iso_shape :: "string \<Rightarrow> bool" where
  "iso_shape s = list_all2 fits ''YYYY-MM-DDTHH:MM:SS'' s"

definition in_range :: "struct_time \<Rightarrow> bool" where
  "in_range lt \<longleftrightarrow>
     1000 \<le> tm_year lt \<and> tm_year lt \<le> 9999 \<and> 1 \<le> tm_mon lt \<and> tm_mon lt \<le> 12 \<and>
     1 \<le> tm_mday lt \<and> tm_mday lt \<le> 31 \<and> tm_hour lt \<le> 23 \<and> tm_min lt \<le> 59 \<and>
     tm_sec lt \<le> 61"

section \<open>Example configurations and runs\<close>

text \<open>
  The door of the end-to-end scenario of the specification: ``Main'', with an e-mail
  after 60 seconds open and an SMS after 300 seconds open. A second door has one rule
  with threshold 0, a third has two thresholds half a second apart.
\<close>

definition main_door :: door where
  "main_door =
     \<lparr>door_name = ''Main'', door_pin = 15,
      door_alerts =
        [\<lparr>alert_time = 60, alert_state = ''open'', alert_recipients = [''email:a'']\<rparr>,
         \<lparr>alert_time = 300, alert_state = ''open'', alert_recipients = [''sms:b'']\<rparr>]\<rparr>"

definition eager_door :: door where
  "eager_door =
     \<lparr>door_name = ''Side'', door_pin = 16,
      door_alerts =
        [\<lparr>alert_time = 0, alert_state = ''open'', alert_recipients = [''tweet'']\<rparr>]\<rparr>"

definition twin_door :: door where
  "twin_door =
     \<lparr>door_name = ''Twin'', door_pin = 18,
      door_alerts =
        [\<lparr>alert_time = 60, alert_state = ''open'', alert_recipients = [''email:a'']\<rparr>,
         \<lparr>alert_time = 121 / 2, alert_state = ''open'', alert_recipients = [''sms:b'']\<rparr>]\<rparr>"

text \<open>
  A stand-in for the encoder, for the examples only: every theorem holds for any
  encoder. It writes a whole number that is not negative the way a float is printed.
\<close>

definition sample_encode :: "event \<Rightarrow> string" where
  "sample_encode ev =
     concat (map (\<lambda>(k, v). k @ ''='' @ (case v of JStr s \<Rightarrow> s | JNum x \<Rightarrow> dec (nat \<lfloor>x\<rfloor>) @ ''.0'') @ '';'')
        ev)"



definition morning :: struct_time where
  "morning = \<lparr>tm_year = 2026, tm_mon = 1, tm_mday = 4, tm_hour = 10, tm_min = 5, tm_sec = 9\<rparr>"

definition reading :: "bool \<Rightarrow> real \<Rightarrow> reads" where
  "reading gpio_input now =
     \<lparr>pin_input = gpio_input, clock_read = now, clock_change = now,
      local_closing = morning, local_alert = morning\<rparr>"

text \<open>A door found open, or shut, at clock 0 by the initial read.\<close>

definition opened :: "door \<Rightarrow> tracker" where
  "opened d = read_initial_state d True 0 no_doors"

definition shut :: "door \<Rightarrow> tracker" where
  "shut d = read_initial_state d False 0 no_doors"

text \<open>``Main'' open since clock 0, after both of its rules have fired.\<close>

definition escalated :: tracker where
  "escalated = set_cursor (opened main_door) main_door 2"

text \<open>
  The scenario: the door is shut at the start, is seen open at clock 0, is still open at
  61 and at 301, and is seen shut at 310. The steady passes: the door stays open.
\<close>

definition closed_at_start :: tracker where
  "closed_at_start = read_initial_state main_door False (- 5) no_doors"

definition scenario :: "reads list" where
  "scenario = [reading True 0, reading True 61, reading True 301, reading False 310]"


definition steady_ticks :: "reads list" where
  "steady_ticks = [reading True 60, reading True 61, reading True 62, reading True 301]"


section \<open>Truncation of messages\<close>

lemma truncate_short: "int (length s) < n - 3 \<Longrightarrow> truncate s n = s"
  by (simp add: truncate_def)

lemma truncate_long:
  assumes "3 \<le> n" and "\<not> int (length s) < n - 3"
  shows "truncate s n = take (nat (n - 3)) s @ ''...''"
    and "int (length (truncate s n)) = n"
  using assms by (auto simp add: truncate_def slice_to_def min_def)

lemma truncate_fixed_point:
  assumes "3 \<le> n" and "\<not> int (length s) < n - 3"
  shows "truncate s n = s \<longleftrightarrow> int (length s) = n \<and> suffix ''...'' s"
proof
  assume e: "truncate s n = s"
  have "int (length s) = n"
    using truncate_long(2) [OF assms] unfolding e .
  moreover have "suffix ''...'' s"
    using e truncate_long(1) [OF assms] by (metis suffixI)
  ultimately show "int (length s) = n \<and> suffix ''...'' s" by simp
next
  assume r: "int (length s) = n \<and> suffix ''...'' s"
  then obtain xs where s: "s = xs @ ''...''"
    by (auto simp: suffix_def)
  with r have "int (length xs) + 3 = n" by simp
  then have "length xs = nat (n - 3)" by linarith
  with s have "take (nat (n - 3)) s = xs" by simp
  with s show "truncate s n = s"
    using truncate_long(1) [OF assms] by simp
qed

text \<open>
  Claim C9. A message of 200 characters, truncated for the SMS and Twitter senders
  (\<^verbatim>\<open>truncate(msg, 140)\<close>), becomes a string of exactly 140 characters: the first 137
  characters of the message followed by three dots.
\<close>

theorem truncate_200_to_140:
  "length s = 200 \<Longrightarrow>
     truncate s 140 = take 137 s @ ''...'' \<and> length (truncate s 140) = 140"
  by (simp add: truncate_def slice_to_def)

theorem truncate_200_to_140_witness:
  "length (replicate 200 (CHR ''x'')) = 200 \<and>
   truncate (replicate 200 (CHR ''x'')) 140 = replicate 137 (CHR ''x'') @ ''...'' \<and>
   length (truncate (replicate 200 (CHR ''x'')) 140) = 140"
  using truncate_200_to_140 [of "replicate 200 (CHR ''x'')"] by simp

text \<open>
  Claim C10, as stated, fails at two kinds of input. A string that has the length of
  the limit and already ends in three dots comes back unchanged although its length is
  not below \<open>n - 3\<close>; and for a limit below 3 the slice \<^verbatim>\<open>input_str[:(length - 3)]\<close>
  has a negative stop, so the result is longer than both the input and the limit.
\<close>

theorem truncate_claim_counterexample:
  "truncate ''ab...'' 5 = ''ab...'' \<and> \<not> int (length ''ab...'') < 5 - 3 \<and>
   truncate ''hello'' 2 = ''hell...'' \<and>
   \<not> int (length (truncate ''hello'' 2)) \<le> max (int (length ''hello'')) 2"
  by (simp add: truncate_def slice_to_def)

text \<open>
  Claim C10, amended. For a limit \<open>n\<close> of at least 3: \<^verbatim>\<open>truncate(s, n)\<close> returns \<open>s\<close>
  when \<open>len(s) < n - 3\<close>, and otherwise the first \<open>n - 3\<close> characters of \<open>s\<close> followed
  by three dots, a string of length exactly \<open>n\<close>; the length of the result never
  exceeds \<open>max(len(s), n)\<close>; and the result differs from \<open>s\<close> for every \<open>s\<close> of length at
  least \<open>n - 3\<close>, also when \<open>s\<close> already fits the limit, except for an \<open>s\<close> of length
  \<open>n\<close> that ends in three dots.
\<close>

theorem truncate_amended:
  assumes "3 \<le> n"
  shows "(int (length s) < n - 3 \<longrightarrow> truncate s n = s) \<and>
         (\<not> int (length s) < n - 3 \<longrightarrow>
            truncate s n = take (nat (n - 3)) s @ ''...'' \<and>
            int (length (truncate s n)) = n) \<and>
         int (length (truncate s n)) \<le> max (int (length s)) n \<and>
         (truncate s n = s \<longleftrightarrow>
            int (length s) < n - 3 \<or> (int (length s) = n \<and> suffix ''...'' s))"
proof (cases "int (length s) < n - 3")
  case True
  then show ?thesis by (simp add: truncate_short)
next
  case False
  from truncate_long [OF assms False] truncate_fixed_point [OF assms False] False
  show ?thesis by simp
qed

theorem truncate_amended_witness:
  "(3::int) \<le> 10 \<and> \<not> int (length ''garage door'') < 10 - 3 \<and>
   truncate ''garage door'' 10 = ''garage ...'' \<and>
   int (length (truncate ''garage door'' 10)) = 10 \<and>
   truncate ''garage door'' 10 \<noteq> ''garage door'' \<and>
   int (length ''door'') < 10 - 3 \<and> truncate ''door'' 10 = ''door''"
  using truncate_amended [of 10 "''garage door''"] truncate_amended [of 10 "''door''"]
  by (simp add: suffix_def)

section \<open>One pass over a door\<close>

text \<open>
  The two blocks of the loop body and the whole pass, in closed form: on a pass that
  finds the stored state, and on a pass that finds another state.
\<close>

lemma check_alerts_eq:
  assumes "alert_states s (door_name d) = Some k"
  shows "check_alerts enc d (sensed rd) rd t s =
           (if due d (sensed rd) t k
            then Inr (set_cursor s d (k + 1), [alert_call enc d rd t k])
            else Inr (s, []))"
  using assms
  by (simp add: check_alerts_def lookup_def due_def set_cursor_def alert_call_def Let_def)

lemma check_state_change_same:
  assumes "door_states s (door_name d) = Some (sensed rd)"
  shows "check_state_change enc d (sensed rd) rd t s = Inr (s, [], t)"
  using assms by (simp add: check_state_change_def lookup_def)

lemma check_state_change_diff:
  assumes "door_states s (door_name d) = Some old" and "old \<noteq> sensed rd"
    and "alert_states s (door_name d) = Some k" and "k \<le> length (door_alerts d)"
  shows "check_state_change enc d (sensed rd) rd t s =
           (if 0 < k
            then Inr (set_cursor (note_change s d rd) d 0, [closing_call enc d rd t k], 0)
            else Inr (note_change s d rd, [], 0))"
  using assms
  by (auto simp add: check_state_change_def lookup_def item_def set_cursor_def note_change_def
      closing_call_def Let_def)

lemma tick_same:
  assumes "door_states s (door_name d) = Some (sensed rd)"
    and "time_of_last_state_change s (door_name d) = Some t0"
    and "alert_states s (door_name d) = Some k"
  shows "tick enc d rd s =
           (if due d (sensed rd) (clock_read rd - t0) k
            then Inr (set_cursor s d (k + 1), [alert_call enc d rd (clock_read rd - t0) k])
            else Inr (s, []))"
  using assms check_state_change_same [OF assms(1)] check_alerts_eq [OF assms(3)]
  by (simp add: tick_def lookup_def Let_def sensed_def [symmetric])

lemma tick_diff:
  assumes "door_states s (door_name d) = Some old" and "old \<noteq> sensed rd"
    and "time_of_last_state_change s (door_name d) = Some t0"
    and "alert_states s (door_name d) = Some k" and "k \<le> length (door_alerts d)"
  shows "tick enc d rd s =
           (let s1 = (if 0 < k then set_cursor (note_change s d rd) d 0 else note_change s d rd);
                out1 = (if 0 < k then [closing_call enc d rd (clock_read rd - t0) k] else [])
            in if due d (sensed rd) 0 0
               then Inr (set_cursor s1 d 1, out1 @ [alert_call enc d rd 0 0])
               else Inr (s1, out1))"
proof (cases "0 < k")
  case True
  have c: "alert_states (set_cursor (note_change s d rd) d 0) (door_name d) = Some 0"
    by (simp add: set_cursor_def)
  show ?thesis
    using True assms(3) check_state_change_diff [OF assms(1,2,4,5)] check_alerts_eq [OF c]
    by (simp add: tick_def lookup_def Let_def sensed_def [symmetric])
next
  case False
  then have c: "alert_states (note_change s d rd) (door_name d) = Some 0"
    using assms(4) by (simp add: note_change_def)
  show ?thesis
    using False assms(3) check_state_change_diff [OF assms(1,2,4,5)] check_alerts_eq [OF c]
    by (simp add: tick_def lookup_def Let_def sensed_def [symmetric])
qed

text \<open>
  A pass that does not raise has found the door in all three dictionaries, and, when
  the state has changed, an alert index within the rule list.
\<close>

lemma tick_Inr_D:
  assumes "tick enc d rd s = Inr (s', out)"
  shows "\<exists>old t0 k. door_states s (door_name d) = Some old \<and>
           time_of_last_state_change s (door_name d) = Some t0 \<and>
           alert_states s (door_name d) = Some k \<and>
           (old \<noteq> sensed rd \<longrightarrow> k \<le> length (door_alerts d))"
  using assms
  by (auto simp add: tick_def check_state_change_def check_alerts_def lookup_def item_def
      Let_def sensed_def split: option.splits sum.splits if_splits)

text \<open>The alert index never exceeds the number of rules.\<close>

lemma tick_keeps_bound:
  assumes "tick enc d rd s = Inr (s', out)"
    and "cursor s d = Some k" and "k \<le> length (door_alerts d)"
  shows "\<exists>k'. cursor s' d = Some k' \<and> k' \<le> length (door_alerts d)"
proof -
  from tick_Inr_D [OF assms(1)] assms(2) obtain old t0 where
    o: "door_states s (door_name d) = Some old"
    and t0: "time_of_last_state_change s (door_name d) = Some t0"
    and k: "alert_states s (door_name d) = Some k"
    by (auto simp add: cursor_def)
  show ?thesis
  proof (cases "old = sensed rd")
    case True
    with o have same: "door_states s (door_name d) = Some (sensed rd)" by simp
    from assms(1,3) tick_same [OF same t0 k, of enc] k show ?thesis
      by (auto simp add: cursor_def set_cursor_def due_def split: if_splits)
  next
    case False
    from assms(1) tick_diff [OF o False t0 k assms(3), of enc] k show ?thesis
      by (auto simp add: cursor_def set_cursor_def note_change_def due_def Let_def Suc_le_eq
          split: if_splits)
  qed
qed

text \<open>A pass over a door that the initial read has entered does not raise.\<close>

lemma tracked_iff:
  "tracked s d \<longleftrightarrow>
     (\<exists>old t0 k. door_states s (door_name d) = Some old \<and>
        time_of_last_state_change s (door_name d) = Some t0 \<and>
        alert_states s (door_name d) = Some k \<and> k \<le> length (door_alerts d))"
  by (auto simp add: tracked_def split: option.splits)

lemma tracked_initial: "tracked (read_initial_state d gpio_input now s) d"
  by (simp add: tracked_iff read_initial_state_def Let_def)

lemma tick_total:
  assumes "tracked s d"
  shows "\<exists>s' out. tick enc d rd s = Inr (s', out) \<and> tracked s' d"
proof -
  from assms obtain old t0 k where
    o: "door_states s (door_name d) = Some old"
    and t0: "time_of_last_state_change s (door_name d) = Some t0"
    and k: "alert_states s (door_name d) = Some k"
    and kb: "k \<le> length (door_alerts d)"
    by (auto simp add: tracked_iff)
  show ?thesis
  proof (cases "old = sensed rd")
    case True
    with o have same: "door_states s (door_name d) = Some (sensed rd)" by simp
    show ?thesis
      using tick_same [OF same t0 k, of enc] same t0 k kb
      by (auto simp add: tracked_iff set_cursor_def due_def)
  next
    case False
    show ?thesis
      using tick_diff [OF o False t0 k kb, of enc] o t0 k kb
      by (auto simp add: tracked_iff set_cursor_def note_change_def due_def Let_def Suc_le_eq)
  qed
qed



section \<open>Runs\<close>

lemma before_0 [simp]: "before s0 tr 0 = s0"
  by (simp add: before_def)

lemma before_Suc [simp]: "before s0 ((s1, out) # tr) (Suc j) = before s1 tr j"
  by (simp add: before_def)




text \<open>So the loop runs through any sequence of readings.\<close>

lemma run_total:
  assumes "tracked s d"
  shows "\<exists>tr. run enc d rds s = Inr tr"
  using assms
proof (induction rds arbitrary: s)
  case Nil
  then show ?case by simp
next
  case (Cons rd rds)
  from tick_total [OF Cons.prems, of enc rd] obtain s' out where
    t: "tick enc d rd s = Inr (s', out)" and tr: "tracked s' d"
    by blast
  from Cons.IH [OF tr] obtain tr' where "run enc d rds s' = Inr tr'" by blast
  with t show ?case by simp
qed

lemmas example_simps = tick_def check_state_change_def check_alerts_def lookup_def item_def
  Let_def get_garage_door_state_def main_door_def eager_door_def twin_door_def reading_def
  scenario_def closed_at_start_def read_initial_state_def no_doors_def opened_def shut_def
  steady_ticks_def the_trace_def

lemmas notion_simps = escalated_def set_cursor_def note_change_def cursor_def changed_def
  sensed_def due_def





section \<open>Escalation while the state holds\<close>



















section \<open>Thresholds, closing events and the number of events of a pass\<close>

lemma closing_call_sel:
  "sent_recipients (closing_call enc d rd t k) = alert_recipients (door_alerts d ! (k - 1))"
  "sent_subject (closing_call enc d rd t k) = door_name d"
  "sent_msg (closing_call enc d rd t k) =
     enc [(''timestamp'', JStr (strftime ''%Y-%m-%dT%H:%M:%S'' (local_closing rd))),
          (''door'', JStr (door_name d)),
          (''state'', JStr (sensed rd)),
          (''time'', JNum (py_round t))]"
  by (simp_all add: closing_call_def create_event_def)

lemma alert_call_msg:
  "sent_msg (alert_call enc d rd t k) =
     enc [(''timestamp'', JStr (strftime ''%Y-%m-%dT%H:%M:%S'' (local_alert rd))),
          (''door'', JStr (door_name d)),
          (''state'', JStr (sensed rd)),
          (''time'', JNum (py_round t))]"
  by (simp add: alert_call_def create_event_def)

lemma escalated_facts:
  "door_states escalated (door_name main_door) = Some ''open''"
  "''open'' \<noteq> sensed (reading False 310)"
  "time_of_last_state_change escalated (door_name main_door) = Some 0"
  "alert_states escalated (door_name main_door) = Some 2"
  "2 \<le> length (door_alerts main_door)"
  by (simp_all add: example_simps notion_simps)

lemma closing_tick:
  "tick sample_encode main_door (reading False 310) escalated =
     Inr (set_cursor (note_change escalated main_door (reading False 310)) main_door 0,
          [closing_call sample_encode main_door (reading False 310) 310 2])"
  by (simp add: example_simps notion_simps closing_call_def)

text \<open>
  Claim C3. For the rule the alert index points at, with the sensed state its trigger
  state: a pass with no state change and a time in state equal to the threshold sends
  nothing and leaves the index; with a time in state of the threshold plus one it sends
  the alert of that rule and moves the index on. A rule with threshold 0 is not fired by
  the alert block at time in state 0, which is the time in state of a pass that finds
  the state changed: such a pass sends the closing event at most and ends with index 0.
\<close>

theorem threshold_strict:
  assumes "time_of_last_state_change s (door_name d) = Some t0"
    and "alert_states s (door_name d) = Some k"
    and "k < length (door_alerts d)"
    and "alert_state (door_alerts d ! k) = sensed rd"
  shows "(door_states s (door_name d) = Some (sensed rd) \<longrightarrow>
            (clock_read rd - t0 = alert_time (door_alerts d ! k) \<longrightarrow>
               tick enc d rd s = Inr (s, [])) \<and>
            (clock_read rd - t0 = alert_time (door_alerts d ! k) + 1 \<longrightarrow>
               tick enc d rd s =
                 Inr (set_cursor s d (k + 1),
                      [alert_call enc d rd (clock_read rd - t0) k]))) \<and>
         (alert_time (door_alerts d ! k) = 0 \<longrightarrow>
            check_alerts enc d (sensed rd) rd 0 s = Inr (s, [])) \<and>
         ((\<exists>old. door_states s (door_name d) = Some old \<and> old \<noteq> sensed rd) \<longrightarrow>
            alert_time (door_alerts d ! 0) = 0 \<longrightarrow>
            (\<exists>s'. tick enc d rd s =
                    Inr (s', if 0 < k then [closing_call enc d rd (clock_read rd - t0) k]
                             else []) \<and>
                  cursor s' d = Some 0))"
proof (intro conjI impI)
  assume same: "door_states s (door_name d) = Some (sensed rd)"
  { assume "clock_read rd - t0 = alert_time (door_alerts d ! k)"
    then show "tick enc d rd s = Inr (s, [])"
      using tick_same [OF same assms(1,2), of enc] by (simp add: due_def) }
  { assume "clock_read rd - t0 = alert_time (door_alerts d ! k) + 1"
    then show "tick enc d rd s =
                 Inr (set_cursor s d (k + 1), [alert_call enc d rd (clock_read rd - t0) k])"
      using tick_same [OF same assms(1,2), of enc] assms(3,4) by (simp add: due_def) }
next
  assume "alert_time (door_alerts d ! k) = 0"
  then show "check_alerts enc d (sensed rd) rd 0 s = Inr (s, [])"
    using check_alerts_eq [OF assms(2), of enc rd 0] by (simp add: due_def)
next
  assume "\<exists>old. door_states s (door_name d) = Some old \<and> old \<noteq> sensed rd"
    and z: "alert_time (door_alerts d ! 0) = 0"
  then obtain old where o: "door_states s (door_name d) = Some old" and ne: "old \<noteq> sensed rd"
    by blast
  have kb: "k \<le> length (door_alerts d)" using assms(3) by simp
  show "\<exists>s'. tick enc d rd s =
                Inr (s', if 0 < k then [closing_call enc d rd (clock_read rd - t0) k] else []) \<and>
              cursor s' d = Some 0"
    using tick_diff [OF o ne assms(1,2) kb, of enc] z assms(2)
    by (simp add: due_def cursor_def set_cursor_def note_change_def)
qed

theorem threshold_strict_witness:
  "tick sample_encode main_door (reading True 60) (opened main_door) =
     Inr (opened main_door, []) \<and>
   tick sample_encode main_door (reading True 61) (opened main_door) =
     Inr (set_cursor (opened main_door) main_door 1,
          [alert_call sample_encode main_door (reading True 61) 61 0]) \<and>
   sent_recipients (alert_call sample_encode main_door (reading True 61) 61 0) = [''email:a''] \<and>
   check_alerts sample_encode eager_door ''open'' (reading True 5) 0 (opened eager_door) =
     Inr (opened eager_door, []) \<and>
   (\<exists>s'. tick sample_encode eager_door (reading True 5) (shut eager_door) = Inr (s', []) \<and>
         cursor s' eager_door = Some 0)"
proof -
  have m1: "time_of_last_state_change (opened main_door) (door_name main_door) = Some 0"
    and m2: "alert_states (opened main_door) (door_name main_door) = Some 0"
    and m3: "0 < length (door_alerts main_door)"
    and m4: "alert_state (door_alerts main_door ! 0) = sensed (reading True 60)"
    and m5: "alert_state (door_alerts main_door ! 0) = sensed (reading True 61)"
    and m6: "door_states (opened main_door) (door_name main_door) = Some ''open''"
    by (simp_all add: example_simps notion_simps)
  have e1: "time_of_last_state_change (shut eager_door) (door_name eager_door) = Some 0"
    and e2: "alert_states (shut eager_door) (door_name eager_door) = Some 0"
    and e3: "0 < length (door_alerts eager_door)"
    and e4: "alert_state (door_alerts eager_door ! 0) = sensed (reading True 5)"
    and e5: "time_of_last_state_change (opened eager_door) (door_name eager_door) = Some 0"
    and e6: "alert_states (opened eager_door) (door_name eager_door) = Some 0"
    by (simp_all add: example_simps notion_simps)
  have a: "tick sample_encode main_door (reading True 60) (opened main_door) =
             Inr (opened main_door, [])"
    using threshold_strict [OF m1 m2 m3 m4, of sample_encode] m6
    by (simp add: example_simps notion_simps)
  have b: "tick sample_encode main_door (reading True 61) (opened main_door) =
     Inr (set_cursor (opened main_door) main_door 1,
          [alert_call sample_encode main_door (reading True 61) 61 0])"
    using threshold_strict [OF m1 m2 m3 m5, of sample_encode] m6
    by (simp add: example_simps notion_simps)
  have c: "check_alerts sample_encode eager_door ''open'' (reading True 5) 0 (opened eager_door) =
     Inr (opened eager_door, [])"
    using threshold_strict [OF e5 e6 e3 e4, of sample_encode]
    by (simp add: example_simps notion_simps)
  have d: "\<exists>s'. tick sample_encode eager_door (reading True 5) (shut eager_door) = Inr (s', []) \<and>
         cursor s' eager_door = Some 0"
    using threshold_strict [OF e1 e2 e3 e4, of sample_encode]
    by (simp add: example_simps notion_simps)
  have e: "sent_recipients (alert_call sample_encode main_door (reading True 61) 61 0) =
             [''email:a'']"
    by (simp add: alert_call_def main_door_def)
  from a b c d e show ?thesis by blast
qed

text \<open>
  Rounding: \<^verbatim>\<open>round\<close> yields a whole number at most one half away from its argument,
  and a tie goes away from zero.
\<close>

lemma py_round_Ints: "py_round x \<in> \<int>"
  by (simp add: py_round_def)

lemma py_round_near: "\<bar>py_round x - x\<bar> \<le> 1 / 2"
proof (cases "0 \<le> x")
  case True
  have "real_of_int \<lfloor>x + 1 / 2\<rfloor> \<le> x + 1 / 2" "x + 1 / 2 < real_of_int \<lfloor>x + 1 / 2\<rfloor> + 1"
    by linarith+
  then have "\<bar>real_of_int \<lfloor>x + 1 / 2\<rfloor> - x\<bar> \<le> 1 / 2" by linarith
  then show ?thesis unfolding py_round_def if_P [OF True] .
next
  case False
  have "x - 1 / 2 \<le> real_of_int \<lceil>x - 1 / 2\<rceil>" "real_of_int \<lceil>x - 1 / 2\<rceil> < x - 1 / 2 + 1"
    by linarith+
  then have "\<bar>real_of_int \<lceil>x - 1 / 2\<rceil> - x\<bar> \<le> 1 / 2" by linarith
  then show ?thesis unfolding py_round_def if_not_P [OF False] .
qed

lemma py_round_tie:
  assumes "\<bar>py_round x - x\<bar> = 1 / 2"
  shows "\<bar>x\<bar> < \<bar>py_round x\<bar>"
proof (cases "0 \<le> x")
  case True
  have 1: "x + 1 / 2 < real_of_int \<lfloor>x + 1 / 2\<rfloor> + 1"
    by linarith
  from assms have "\<bar>real_of_int \<lfloor>x + 1 / 2\<rfloor> - x\<bar> = 1 / 2"
    unfolding py_round_def if_P [OF True] .
  with 1 True have "\<bar>x\<bar> < \<bar>real_of_int \<lfloor>x + 1 / 2\<rfloor>\<bar>" by linarith
  then show ?thesis unfolding py_round_def if_P [OF True] .
next
  case False
  have 1: "real_of_int \<lceil>x - 1 / 2\<rceil> < x - 1 / 2 + 1"
    by linarith
  from assms have "\<bar>real_of_int \<lceil>x - 1 / 2\<rceil> - x\<bar> = 1 / 2"
    unfolding py_round_def if_not_P [OF False] .
  with 1 False have "\<bar>x\<bar> < \<bar>real_of_int \<lceil>x - 1 / 2\<rceil>\<bar>" by linarith
  then show ?thesis unfolding py_round_def if_not_P [OF False] .
qed

lemma closing_tick_at:
  "0 \<le> now \<Longrightarrow>
     tick sample_encode main_door (reading False now) escalated =
       Inr (set_cursor (note_change escalated main_door (reading False now)) main_door 0,
            [closing_call sample_encode main_door (reading False now) now 2])"
  by (simp add: example_simps notion_simps closing_call_def)

lemma closing_msg_at:
  "sent_msg (closing_call sample_encode main_door (reading False now) t 2) =
     sample_encode [(''timestamp'', JStr ''2026-01-04T10:05:09''), (''door'', JStr ''Main''),
                    (''state'', JStr ''closed''), (''time'', JNum (py_round t))]"
  by (simp add: closing_call_sel morning_def reading_def main_door_def sensed_def
      get_garage_door_state_def directive_def dec.simps zero_pad_def digit_char_def)

lemma py_round_examples: "py_round (1552 / 5) = 310" "py_round (621 / 2) = 311"
  by (simp_all add: py_round_def)




text \<open>
  Claim C5. When no rule of the door has a threshold below 0, a pass that does not raise
  makes at most one call of \<^verbatim>\<open>send_alerts\<close>: a pass that finds the state changed makes
  the closing call or none, and no alert call; a pass that finds the state unchanged
  makes one alert call or none.
\<close>

theorem at_most_one_event:
  assumes "\<forall>a\<in>set (door_alerts d). 0 \<le> alert_time a"
    and "tick enc d rd s = Inr (s', out)"
  shows "length out \<le> 1 \<and>
         (changed d rd s \<longrightarrow>
            (\<exists>k t0. cursor s d = Some k \<and>
               time_of_last_state_change s (door_name d) = Some t0 \<and>
               out = (if 0 < k then [closing_call enc d rd (clock_read rd - t0) k] else []))) \<and>
         (\<not> changed d rd s \<longrightarrow>
            (\<exists>k t0. cursor s d = Some k \<and>
               time_of_last_state_change s (door_name d) = Some t0 \<and>
               (out = [] \<or> out = [alert_call enc d rd (clock_read rd - t0) k])))"
proof -
  from tick_Inr_D [OF assms(2)] obtain old t0 k where
    o: "door_states s (door_name d) = Some old"
    and t0: "time_of_last_state_change s (door_name d) = Some t0"
    and k: "alert_states s (door_name d) = Some k"
    and b: "old \<noteq> sensed rd \<longrightarrow> k \<le> length (door_alerts d)"
    by blast
  show ?thesis
  proof (cases "old = sensed rd")
    case True
    with o have same: "door_states s (door_name d) = Some (sensed rd)" by simp
    from assms(2) tick_same [OF same t0 k, of enc] same t0 k show ?thesis
      by (auto simp add: changed_def cursor_def split: if_splits)
  next
    case False
    with b have kb: "k \<le> length (door_alerts d)" by simp
    have nd: "\<not> due d (sensed rd) 0 0"
    proof
      assume "due d (sensed rd) 0 0"
      then have "0 < length (door_alerts d)" and neg: "alert_time (door_alerts d ! 0) < 0"
        by (simp_all add: due_def)
      then have "door_alerts d ! 0 \<in> set (door_alerts d)" by simp
      with assms(1) have "0 \<le> alert_time (door_alerts d ! 0)" by blast
      with neg show False by simp
    qed
    from assms(2) tick_diff [OF o False t0 k kb, of enc] nd o False t0 k show ?thesis
      by (auto simp add: changed_def cursor_def Let_def split: if_splits)
  qed
qed

theorem at_most_one_event_witness:
  "tick sample_encode main_door (reading False 310) escalated =
     Inr (set_cursor (note_change escalated main_door (reading False 310)) main_door 0,
          [closing_call sample_encode main_door (reading False 310) 310 2]) \<and>
   map alert_time (door_alerts main_door) = [60, 300] \<and>
   changed main_door (reading False 310) escalated \<and>
   length [closing_call sample_encode main_door (reading False 310) 310 2] \<le> 1"
proof -
  have "\<forall>a\<in>set (door_alerts main_door). 0 \<le> alert_time a"
    by (simp add: main_door_def)
  from at_most_one_event [OF this closing_tick] closing_tick show ?thesis
    by (simp add: example_simps notion_simps)
qed

text \<open>
  Claim C7. On a pass that does not raise, \<^verbatim>\<open>time_of_last_state_change[name]\<close> is
  assigned, the clock reading of line 625, exactly when \<^verbatim>\<open>door_states[name]\<close> changes,
  which is when the sensed state differs from the stored one; on a pass with no change
  the whole dictionary of times is left as it was. Unless the clock reading equals the
  stored time, the stored time changes if and only if the stored state does.
\<close>

theorem last_change_iff_state_change:
  assumes "tick enc d rd s = Inr (s', out)"
  shows "(door_states s' (door_name d) \<noteq> door_states s (door_name d) \<longleftrightarrow> changed d rd s) \<and>
         (door_states s' (door_name d) \<noteq> door_states s (door_name d) \<longrightarrow>
            time_of_last_state_change s' =
              (time_of_last_state_change s)(door_name d \<mapsto> clock_change rd)) \<and>
         (door_states s' (door_name d) = door_states s (door_name d) \<longrightarrow>
            time_of_last_state_change s' = time_of_last_state_change s) \<and>
         (time_of_last_state_change s (door_name d) \<noteq> Some (clock_change rd) \<longrightarrow>
            (time_of_last_state_change s' (door_name d) \<noteq>
               time_of_last_state_change s (door_name d)
             \<longleftrightarrow> door_states s' (door_name d) \<noteq> door_states s (door_name d)))"
proof -
  from tick_Inr_D [OF assms] obtain old t0 k where
    o: "door_states s (door_name d) = Some old"
    and t0: "time_of_last_state_change s (door_name d) = Some t0"
    and k: "alert_states s (door_name d) = Some k"
    and b: "old \<noteq> sensed rd \<longrightarrow> k \<le> length (door_alerts d)"
    by blast
  show ?thesis
  proof (cases "old = sensed rd")
    case True
    with o have same: "door_states s (door_name d) = Some (sensed rd)" by simp
    from assms tick_same [OF same t0 k, of enc] same show ?thesis
      by (auto simp add: changed_def set_cursor_def split: if_splits)
  next
    case False
    with b have kb: "k \<le> length (door_alerts d)" by simp
    from assms tick_diff [OF o False t0 k kb, of enc] o False t0 show ?thesis
      by (auto simp add: changed_def set_cursor_def note_change_def Let_def split: if_splits)
  qed
qed

theorem last_change_iff_state_change_witness:
  "tick sample_encode main_door (reading False 310) escalated =
     Inr (set_cursor (note_change escalated main_door (reading False 310)) main_door 0,
          [closing_call sample_encode main_door (reading False 310) 310 2]) \<and>
   door_states escalated ''Main'' = Some ''open'' \<and>
   door_states
     (set_cursor (note_change escalated main_door (reading False 310)) main_door 0) ''Main'' =
     Some ''closed'' \<and>
   time_of_last_state_change escalated ''Main'' = Some 0 \<and>
   time_of_last_state_change
     (set_cursor (note_change escalated main_door (reading False 310)) main_door 0) ''Main'' =
     Some 310 \<and>
   tick sample_encode main_door (reading True 60) (opened main_door) =
     Inr (opened main_door, []) \<and>
   time_of_last_state_change (opened main_door) ''Main'' = Some 0"
proof -
  have q: "tick sample_encode main_door (reading True 60) (opened main_door) =
             Inr (opened main_door, [])"
    by (simp add: example_simps notion_simps)
  from last_change_iff_state_change [OF closing_tick] last_change_iff_state_change [OF q]
    closing_tick q
  show ?thesis
    by (simp add: example_simps notion_simps)
qed

section \<open>The event and its dispatch\<close>

lemma is_digit_digit_char: "is_digit (digit_char n)"
  unfolding is_digit_def digit_char_def by (rule nth_mem) simp

lemma digit_char_0: "digit_char 0 = CHR ''0''"
  by (simp add: digit_char_def)

lemma dec_1: "n < 10 \<Longrightarrow> dec n = [digit_char n]"
  by (simp add: dec.simps)

lemma dec_2: "10 \<le> n \<Longrightarrow> n < 100 \<Longrightarrow> dec n = [digit_char (n div 10), digit_char n]"
  by (subst dec.simps) (simp add: dec_1)

lemma dec_3:
  "100 \<le> n \<Longrightarrow> n < 1000 \<Longrightarrow>
     dec n = [digit_char (n div 100), digit_char (n div 10), digit_char n]"
  by (subst dec.simps) (simp add: dec_2 div_mult2_eq [symmetric])

lemma dec_4:
  "1000 \<le> n \<Longrightarrow> n < 10000 \<Longrightarrow>
     dec n = [digit_char (n div 1000), digit_char (n div 100), digit_char (n div 10),
              digit_char n]"
  by (subst dec.simps) (simp add: dec_3 div_mult2_eq [symmetric])

lemma zero_pad_2: "n < 100 \<Longrightarrow> zero_pad 2 (dec n) = [digit_char (n div 10), digit_char n]"
  by (cases "n < 10") (simp_all add: zero_pad_def dec_1 dec_2 digit_char_0)

lemma strftime_stamp:
  "strftime ''%Y-%m-%dT%H:%M:%S'' lt =
     dec (tm_year lt) @ ''-'' @ zero_pad 2 (dec (tm_mon lt)) @ ''-'' @
     zero_pad 2 (dec (tm_mday lt)) @ ''T'' @ zero_pad 2 (dec (tm_hour lt)) @ '':'' @
     zero_pad 2 (dec (tm_min lt)) @ '':'' @ zero_pad 2 (dec (tm_sec lt))"
  by (simp add: directive_def)

lemma fits_digit: "p \<in> set ''YMDHS'' \<Longrightarrow> fits p (digit_char n)"
  by (simp add: fits_def is_digit_digit_char)

lemma strftime_iso_shape:
  assumes "in_range lt"
  shows "iso_shape (strftime ''%Y-%m-%dT%H:%M:%S'' lt)"
proof -
  from assms have "1000 \<le> tm_year lt" "tm_year lt < 10000" "tm_mon lt < 100"
    "tm_mday lt < 100" "tm_hour lt < 100" "tm_min lt < 100" "tm_sec lt < 100"
    by (simp_all add: in_range_def)
  then show ?thesis
    unfolding strftime_stamp iso_shape_def
    by (simp add: dec_4 zero_pad_2 fits_digit) (simp add: fits_def)
qed

lemma sensed_cases: "sensed rd = ''open'' \<or> sensed rd = ''closed''"
  by (simp add: sensed_def get_garage_door_state_def)

lemma tick_out_cases:
  assumes "tick enc d rd s = Inr (s', out)" and "e \<in> set out"
  shows "\<exists>t0 k. time_of_last_state_change s (door_name d) = Some t0 \<and>
           (e = closing_call enc d rd (clock_read rd - t0) k \<and> changed d rd s \<or>
            e = alert_call enc d rd (clock_read rd - t0) k \<and> \<not> changed d rd s \<or>
            e = alert_call enc d rd 0 0 \<and> changed d rd s)"
proof -
  from tick_Inr_D [OF assms(1)] obtain old t0 k where
    o: "door_states s (door_name d) = Some old"
    and t0: "time_of_last_state_change s (door_name d) = Some t0"
    and k: "alert_states s (door_name d) = Some k"
    and b: "old \<noteq> sensed rd \<longrightarrow> k \<le> length (door_alerts d)"
    by blast
  show ?thesis
  proof (cases "old = sensed rd")
    case True
    with o have same: "door_states s (door_name d) = Some (sensed rd)" by simp
    from assms tick_same [OF same t0 k, of enc] t0 same show ?thesis
      by (auto simp add: changed_def split: if_splits)
  next
    case False
    with b have kb: "k \<le> length (door_alerts d)" by simp
    from assms tick_diff [OF o False t0 k kb, of enc] t0 o False show ?thesis
      by (auto simp add: changed_def Let_def split: if_splits)
  qed
qed

text \<open>
  Claim C8. Every message a pass hands to \<^verbatim>\<open>send_alerts\<close> is the encoding of a
  dictionary with exactly the keys \<^verbatim>\<open>timestamp\<close>, \<^verbatim>\<open>door\<close>, \<^verbatim>\<open>state\<close> and \<^verbatim>\<open>time\<close>:
  the timestamp is the local time read in \<^verbatim>\<open>create_event\<close>, formatted
  \<^verbatim>\<open>YYYY-MM-DDTHH:MM:SS\<close>; the door is the door's name; the state is the sensed state,
  \<^verbatim>\<open>open\<close> or \<^verbatim>\<open>closed\<close>; the time is a whole number of seconds, the time in state
  rounded to the nearest whole number with a tie going away from zero (on a pass that
  finds the state changed: the time in the state just left for the closing event, and 0
  for an alert). The number is handed over as the float that \<^verbatim>\<open>round\<close> returns.
\<close>

theorem event_wire_format:
  assumes "tick enc d rd s = Inr (s', out)" and "e \<in> set out"
  shows "\<exists>lt tis n t0.
           sent_msg e =
             enc [(''timestamp'', JStr (strftime ''%Y-%m-%dT%H:%M:%S'' lt)),
                  (''door'', JStr (door_name d)),
                  (''state'', JStr (sensed rd)),
                  (''time'', JNum n)] \<and>
           (lt = local_closing rd \<or> lt = local_alert rd) \<and>
           (in_range lt \<longrightarrow> iso_shape (strftime ''%Y-%m-%dT%H:%M:%S'' lt)) \<and>
           (sensed rd = ''open'' \<or> sensed rd = ''closed'') \<and>
           time_of_last_state_change s (door_name d) = Some t0 \<and>
           (tis = clock_read rd - t0 \<or> changed d rd s \<and> tis = 0) \<and>
           n = py_round tis \<and> n \<in> \<int> \<and> \<bar>n - tis\<bar> \<le> 1 / 2 \<and>
           (\<bar>n - tis\<bar> = 1 / 2 \<longrightarrow> \<bar>tis\<bar> < \<bar>n\<bar>)"
proof -
  from tick_out_cases [OF assms] obtain t0 k where
    t0: "time_of_last_state_change s (door_name d) = Some t0"
    and e: "e = closing_call enc d rd (clock_read rd - t0) k \<or>
            e = alert_call enc d rd (clock_read rd - t0) k \<or>
            e = alert_call enc d rd 0 0 \<and> changed d rd s"
    by blast
  have r: "py_round x \<in> \<int> \<and> \<bar>py_round x - x\<bar> \<le> 1 / 2 \<and>
           (\<bar>py_round x - x\<bar> = 1 / 2 \<longrightarrow> \<bar>x\<bar> < \<bar>py_round x\<bar>)" for x
    using py_round_Ints py_round_near py_round_tie by blast
  from e consider (a) "e = closing_call enc d rd (clock_read rd - t0) k"
    | (b) "e = alert_call enc d rd (clock_read rd - t0) k"
    | (c) "e = alert_call enc d rd 0 0" "changed d rd s"
    by blast
  then show ?thesis
  proof cases
    case a
    show ?thesis
      apply (rule exI [of _ "local_closing rd"])
      apply (rule exI [of _ "clock_read rd - t0"])
      apply (rule exI [of _ "py_round (clock_read rd - t0)"])
      apply (rule exI [of _ t0])
      using a t0 sensed_cases [of rd] strftime_iso_shape [of "local_closing rd"]
        r [of "clock_read rd - t0"]
      by (simp add: closing_call_sel)
  next
    case b
    show ?thesis
      apply (rule exI [of _ "local_alert rd"])
      apply (rule exI [of _ "clock_read rd - t0"])
      apply (rule exI [of _ "py_round (clock_read rd - t0)"])
      apply (rule exI [of _ t0])
      using b t0 sensed_cases [of rd] strftime_iso_shape [of "local_alert rd"]
        r [of "clock_read rd - t0"]
      by (simp add: alert_call_msg)
  next
    case c
    show ?thesis
      apply (rule exI [of _ "local_alert rd"])
      apply (rule exI [of _ 0])
      apply (rule exI [of _ "py_round 0"])
      apply (rule exI [of _ t0])
      using c t0 sensed_cases [of rd] strftime_iso_shape [of "local_alert rd"] r [of 0]
      by (simp add: alert_call_msg)
  qed
qed

theorem event_wire_format_witness:
  "tick sample_encode main_door (reading False (621 / 2)) escalated =
     Inr (set_cursor (note_change escalated main_door (reading False (621 / 2))) main_door 0,
          [closing_call sample_encode main_door (reading False (621 / 2)) (621 / 2) 2]) \<and>
   time_of_last_state_change escalated ''Main'' = Some 0 \<and>
   sent_msg (closing_call sample_encode main_door (reading False (621 / 2)) (621 / 2) 2) =
     sample_encode [(''timestamp'', JStr ''2026-01-04T10:05:09''), (''door'', JStr ''Main''),
                    (''state'', JStr ''closed''), (''time'', JNum 311)] \<and>
   py_round (621 / 2) = 311 \<and>
   in_range (local_closing (reading False (621 / 2))) \<and>
   iso_shape ''2026-01-04T10:05:09''"
proof -
  have t: "tick sample_encode main_door (reading False (621 / 2)) escalated =
     Inr (set_cursor (note_change escalated main_door (reading False (621 / 2))) main_door 0,
          [closing_call sample_encode main_door (reading False (621 / 2)) (621 / 2) 2])"
    by (simp add: closing_tick_at)
  have e: "closing_call sample_encode main_door (reading False (621 / 2)) (621 / 2) 2 \<in>
             set [closing_call sample_encode main_door (reading False (621 / 2)) (621 / 2) 2]"
    by simp
  have m: "sent_msg (closing_call sample_encode main_door (reading False (621 / 2)) (621 / 2) 2) =
     sample_encode [(''timestamp'', JStr ''2026-01-04T10:05:09''), (''door'', JStr ''Main''),
                    (''state'', JStr ''closed''), (''time'', JNum 311)]"
    by (simp only: closing_msg_at py_round_examples)
  have l: "time_of_last_state_change escalated ''Main'' = Some 0"
    by (simp add: example_simps notion_simps)
  have r: "in_range (local_closing (reading False (621 / 2)))"
    by (simp add: in_range_def reading_def morning_def)
  have i: "iso_shape ''2026-01-04T10:05:09''"
    by (simp add: iso_shape_def fits_def is_digit_def)
  from event_wire_format [OF t e] t m l r i py_round_examples(2) show ?thesis
    by simp
qed









end
